theory Spec2Isabelle
  imports Main
begin

section \<open>Strings\<close>

text \<open>
  A JavaScript string is a sequence of UTF-16 code units. The model covers the code units
  U+0000 to U+00FF: a \<^typ>\<open>char\<close> stands for the code unit of the same number, and the
  functions below are what \<open>String.prototype.trim\<close>, \<open>toLowerCase\<close> and the regular
  expression class \<open>\s\<close> do on that range.
\<close>

definition isWhiteSpace :: "char \<Rightarrow> bool" where
  \<comment> \<open>\<open>\s\<close>, and what \<open>trim\<close> strips: TAB, LF, VT, FF, CR, SP, NBSP\<close>
  "isWhiteSpace c =
     (c \<in> set [CHR 0x09, CHR 0x0A, CHR 0x0B, CHR 0x0C, CHR 0x0D, CHR 0x20, CHR 0xA0])"

definition isPunct :: "char \<Rightarrow> bool" where
  \<comment> \<open>the character class \<open>[()\-&$#![\]{}"',.]\<close> of line 130\<close>
  "isPunct c =
     (c \<in> set [CHR ''('', CHR '')'', CHR ''-'', CHR ''&'', CHR ''$'', CHR ''#'', CHR ''!'',
                CHR ''['', CHR '']'', CHR ''{'', CHR ''}'', CHR 0x22, CHR 0x27, CHR '','',
                CHR ''.''])"

definition upperCaseLetters :: string where
  "upperCaseLetters = ''ABCDEFGHIJKLMNOPQRSTUVWXYZ'' @
     [CHR 0xC0, CHR 0xC1, CHR 0xC2, CHR 0xC3, CHR 0xC4, CHR 0xC5, CHR 0xC6, CHR 0xC7,
      CHR 0xC8, CHR 0xC9, CHR 0xCA, CHR 0xCB, CHR 0xCC, CHR 0xCD, CHR 0xCE, CHR 0xCF,
      CHR 0xD0, CHR 0xD1, CHR 0xD2, CHR 0xD3, CHR 0xD4, CHR 0xD5, CHR 0xD6,
      CHR 0xD8, CHR 0xD9, CHR 0xDA, CHR 0xDB, CHR 0xDC, CHR 0xDD, CHR 0xDE]"

definition lowerCaseLetters :: string where
  "lowerCaseLetters = ''abcdefghijklmnopqrstuvwxyz'' @
     [CHR 0xE0, CHR 0xE1, CHR 0xE2, CHR 0xE3, CHR 0xE4, CHR 0xE5, CHR 0xE6, CHR 0xE7,
      CHR 0xE8, CHR 0xE9, CHR 0xEA, CHR 0xEB, CHR 0xEC, CHR 0xED, CHR 0xEE, CHR 0xEF,
      CHR 0xF0, CHR 0xF1, CHR 0xF2, CHR 0xF3, CHR 0xF4, CHR 0xF5, CHR 0xF6,
      CHR 0xF8, CHR 0xF9, CHR 0xFA, CHR 0xFB, CHR 0xFC, CHR 0xFD, CHR 0xFE]"

definition lowerChar :: "char \<Rightarrow> char" where
  "lowerChar c =
     (case map_of (zip upperCaseLetters lowerCaseLetters) c of Some d \<Rightarrow> d | None \<Rightarrow> c)"

definition upperChar :: "char \<Rightarrow> char" where
  "upperChar c =
     (case map_of (zip lowerCaseLetters upperCaseLetters) c of Some d \<Rightarrow> d | None \<Rightarrow> c)"

definition toLowerCase :: "string \<Rightarrow> string" where
  "toLowerCase s = map lowerChar s"

definition toUpperCase :: "string \<Rightarrow> string" where
  \<comment> \<open>exact on the letters of the two tables; the logger applies it to level names only\<close>
  "toUpperCase s = map upperChar s"

definition trim :: "string \<Rightarrow> string" where
  "trim s = rev (dropWhile isWhiteSpace (rev (dropWhile isWhiteSpace s)))"

fun splitOn :: "char \<Rightarrow> string \<Rightarrow> string list" where
  "splitOn d [] = [] # []"
| "splitOn d (c # cs) =
     (if c = d then [] # splitOn d cs
      else (case splitOn d cs of [] \<Rightarrow> [c] # [] | p # ps \<Rightarrow> (c # p) # ps))"

fun joinWith :: "string \<Rightarrow> string list \<Rightarrow> string" where
  "joinWith sep [] = []"
| "joinWith sep [x] = x"
| "joinWith sep (x # y # ys) = x @ sep @ joinWith sep (y # ys)"

subsection \<open>Decimal numerals\<close>

definition digitChar :: "nat \<Rightarrow> char" where
  "digitChar d = ''0123456789abcdef'' ! (d mod 16)"

fun digitsOf :: "nat \<Rightarrow> string" where
  "digitsOf n = (if n < 10 then [digitChar n] else digitsOf (n div 10) @ [digitChar (n mod 10)])"

declare digitsOf.simps [simp del]

definition numberToString :: "int \<Rightarrow> string" where
  \<comment> \<open>\<open>Number.prototype.toString\<close> on the integers of the model: the decimal digits\<close>
  "numberToString n = (if n < 0 then CHR ''-'' # digitsOf (nat (- n)) else digitsOf (nat n))"

section \<open>Regular expressions\<close>

text \<open>
  The sanitising expression of line 130 uses character classes, \<open>^\<close>, \<open>$\<close>, sequence,
  alternation and the greedy \<open>+\<close>. A cursor is the index reached and the input still to
  read. \<open>matches r x\<close> lists the cursors at which \<open>r\<close> can end when started at \<open>x\<close>, in the
  order in which a backtracking matcher tries them; the first one is the match the
  engine reports. \<open>^\<close> holds at index 0 only (the expression has no \<open>m\<close> flag).
\<close>

datatype regex =
  Class "char \<Rightarrow> bool" | Bol | Eol | Seq regex regex | Alt regex regex | Plus regex

type_synonym cursor = "nat \<times> string"

fun plusLoop :: "(cursor \<Rightarrow> cursor list) \<Rightarrow> nat \<Rightarrow> cursor \<Rightarrow> cursor list" where
  "plusLoop m 0 x = m x"
| "plusLoop m (Suc fuel) x =
     concat (map (\<lambda>y. (if length (snd y) < length (snd x) then plusLoop m fuel y else []) @ [y])
                 (m x))"

primrec matches :: "regex \<Rightarrow> cursor \<Rightarrow> cursor list" where
  "matches (Class p) x =
     (case snd x of [] \<Rightarrow> [] | c # cs \<Rightarrow> if p c then [(Suc (fst x), cs)] else [])"
| "matches Bol x = (if fst x = 0 then [x] else [])"
| "matches Eol x = (if snd x = [] then [x] else [])"
| "matches (Seq a b) x = concat (map (matches b) (matches a x))"
| "matches (Alt a b) x = matches a x @ matches b x"
| "matches (Plus a) x = plusLoop (matches a) (length (snd x)) x"

definition exec :: "regex \<Rightarrow> cursor \<Rightarrow> cursor option" where
  "exec r x = (case matches r x of [] \<Rightarrow> None | y # _ \<Rightarrow> Some y)"

text \<open>
  \<open>s.replace(r, rep)\<close> for a global \<open>r\<close>: scan from the left, replace each match and go
  on behind it; after an empty match, and where nothing matches, keep one character
  and move on.
\<close>

function replaceAll :: "regex \<Rightarrow> string \<Rightarrow> cursor \<Rightarrow> string" where
  "replaceAll r rep (i, s) =
     (case exec r (i, s) of
        Some (j, s') \<Rightarrow>
          if length s' < length s then rep @ replaceAll r rep (j, s')
          else rep @ (case s of [] \<Rightarrow> [] | c # cs \<Rightarrow> c # replaceAll r rep (Suc i, cs))
      | None \<Rightarrow> (case s of [] \<Rightarrow> [] | c # cs \<Rightarrow> c # replaceAll r rep (Suc i, cs)))"
  by pat_completeness auto
termination
  by (relation "measure (\<lambda>(r, rep, x). length (snd x))") auto

declare replaceAll.simps [simp del]

definition punctRegex :: regex where
  \<comment> \<open>\<open>(?:[P]+(?:\s|$)|(?:^|\s)[P]+)\<close> with \<open>P\<close> the punctuation class\<close>
  "punctRegex =
     Alt (Seq (Plus (Class isPunct)) (Alt (Class isWhiteSpace) Eol))
         (Seq (Alt Bol (Class isWhiteSpace)) (Plus (Class isPunct)))"

definition sanitizeMessage :: "string \<Rightarrow> string" where
  \<comment> \<open>lines 129 to 132: \<open>message.replace(..., ' ').trim().toLowerCase()\<close>\<close>
  "sanitizeMessage message = toLowerCase (trim (replaceAll punctRegex '' '' (0, message)))"

section \<open>JavaScript values\<close>

text \<open>
  The values a parameter bag can hold. The model covers plain data: \<open>Num n\<close> is the
  number \<open>n\<close>, an integer of magnitude at most \<open>2^53 - 1\<close>, which JavaScript prints digit
  by digit; \<open>Func\<close> is any function value; an object is an ordinary, extensible object
  without accessors, given by the list of its own enumerable properties in the order in
  which \<open>Object.keys\<close> lists them, with distinct keys. Outside the model are fractions,
  larger numbers, \<open>NaN\<close> and the infinities; \<open>BigInt\<close> values, cyclic structures and
  objects with a \<open>toJSON\<close> method, on which \<open>JSON.stringify\<close> throws or runs foreign code;
  and frozen or sealed objects, on which the \<open>delete\<close> of line 135 throws. On those the
  code throws where the functions below go on; the theorems speak of plain data only.
\<close>

datatype jsval =
  Undefined | Null | Bool bool | Num int | Str string
  | Arr "jsval list" | Obj "(string \<times> jsval) list" | Func

type_synonym object = "(string \<times> jsval) list"

fun isString :: "jsval \<Rightarrow> bool" where
  "isString (Str s) = True"
| "isString v = False"

fun isNumber :: "jsval \<Rightarrow> bool" where
  "isNumber (Num n) = True"
| "isNumber v = False"

fun isObject :: "jsval \<Rightarrow> bool" where
  "isObject (Obj kvs) = True"
| "isObject (Arr xs) = True"
| "isObject v = False"

fun isFunction :: "jsval \<Rightarrow> bool" where
  "isFunction Func = True"
| "isFunction v = False"

fun isBoolean :: "jsval \<Rightarrow> bool" where
  "isBoolean (Bool b) = True"
| "isBoolean v = False"

fun truthy :: "jsval \<Rightarrow> bool" where
  "truthy Undefined = False"
| "truthy Null = False"
| "truthy (Bool b) = b"
| "truthy (Num n) = (n \<noteq> 0)"
| "truthy (Str s) = (s \<noteq> [])"
| "truthy v = True"

fun templateString :: "jsval \<Rightarrow> string" where
  \<comment> \<open>\<open>`${value}`\<close>; line 90 reaches it for strings and numbers only\<close>
  "templateString (Str s) = s"
| "templateString (Num n) = numberToString n"
| "templateString v = []"

subsection \<open>Property access\<close>

definition keysOf :: "object \<Rightarrow> string list" where
  "keysOf kvs = map fst kvs"

definition getProperty :: "object \<Rightarrow> string \<Rightarrow> jsval" where
  "getProperty kvs k = (case map_of kvs k of None \<Rightarrow> Undefined | Some v \<Rightarrow> v)"

definition hasProperty :: "string \<Rightarrow> object \<Rightarrow> bool" where
  "hasProperty k kvs = (k \<in> set (keysOf kvs))"

definition deleteProperty :: "string \<Rightarrow> object \<Rightarrow> object" where
  "deleteProperty k kvs = filter (\<lambda>kv. fst kv \<noteq> k) kvs"

definition isDigit :: "char \<Rightarrow> bool" where
  "isDigit c = (c \<in> set ''0123456789'')"

fun numeralLess :: "string \<Rightarrow> string \<Rightarrow> bool" where
  \<comment> \<open>for two numerals of the same length: digit by digit\<close>
  "numeralLess (a # as) (b # bs) =
     ((of_char a :: nat) < of_char b \<or> (a = b \<and> numeralLess as bs))"
| "numeralLess as bs = False"

definition indexLess :: "string \<Rightarrow> string \<Rightarrow> bool" where
  \<comment> \<open>the numeric order of numerals without leading zeros\<close>
  "indexLess a b = (length a < length b \<or> (length a = length b \<and> numeralLess a b))"

definition isArrayIndex :: "string \<Rightarrow> bool" where
  \<comment> \<open>a key is an array index when it is the decimal numeral, without leading zeros, of a
      number below \<open>2^32 - 1\<close>\<close>
  "isArrayIndex k =
     (case k of
        [] \<Rightarrow> False
      | c # cs \<Rightarrow>
          list_all isDigit k \<and> (c = CHR ''0'' \<longrightarrow> cs = [])
          \<and> indexLess k ''4294967295'')"

fun insertIndexed :: "string \<Rightarrow> jsval \<Rightarrow> object \<Rightarrow> object" where
  "insertIndexed k v [] = [(k, v)]"
| "insertIndexed k v ((k', v') # kvs) =
     (if isArrayIndex k' \<and> \<not> indexLess k k' then (k', v') # insertIndexed k v kvs
      else (k, v) # (k', v') # kvs)"

definition setProperty :: "string \<Rightarrow> jsval \<Rightarrow> object \<Rightarrow> object" where
  \<comment> \<open>an existing key keeps its place; a new array index goes among the indices, in
      ascending order; any other new key goes last\<close>
  "setProperty k v kvs =
     (if hasProperty k kvs then map (\<lambda>kv. if fst kv = k then (k, v) else kv) kvs
      else if isArrayIndex k then insertIndexed k v kvs
      else kvs @ [(k, v)])"

definition spreadInto :: "object \<Rightarrow> object \<Rightarrow> object" where
  \<comment> \<open>\<open>{...target, ...source}\<close>: for each key of the source, in its order, read the
      property and define it on the target\<close>
  "spreadInto target source =
     fold (\<lambda>k t. setProperty k (getProperty source k) t) (keysOf source) target"

fun ownEnumerable :: "jsval \<Rightarrow> object" where
  \<comment> \<open>what a spread copies out of a value\<close>
  "ownEnumerable (Obj kvs) = kvs"
| "ownEnumerable (Arr xs) = zip (map digitsOf [0 ..< length xs]) xs"
| "ownEnumerable (Str s) = zip (map digitsOf [0 ..< length s]) (map (\<lambda>c. Str [c]) s)"
| "ownEnumerable v = []"

subsection \<open>JSON text\<close>

definition escapeChar :: "char \<Rightarrow> string" where
  "escapeChar c =
     (if c = CHR 0x22 then [CHR 0x5C, CHR 0x22]
      else if c = CHR 0x5C then [CHR 0x5C, CHR 0x5C]
      else if c = CHR 0x08 then [CHR 0x5C, CHR ''b'']
      else if c = CHR 0x0C then [CHR 0x5C, CHR ''f'']
      else if c = CHR 0x0A then [CHR 0x5C, CHR ''n'']
      else if c = CHR 0x0D then [CHR 0x5C, CHR ''r'']
      else if c = CHR 0x09 then [CHR 0x5C, CHR ''t'']
      else if (of_char c :: nat) < 32
        then [CHR 0x5C, CHR ''u'', CHR ''0'', CHR ''0'',
              digitChar (of_char c div 16), digitChar (of_char c mod 16)]
      else [c])"

definition quoteJSON :: "string \<Rightarrow> string" where
  "quoteJSON s = [CHR 0x22] @ concat (map escapeChar s) @ [CHR 0x22]"

fun serialize :: "jsval \<Rightarrow> string option"
  and serializeElements :: "jsval list \<Rightarrow> string list"
  and serializeMembers :: "(string \<times> jsval) list \<Rightarrow> string list" where
  "serialize Undefined = None"
| "serialize Func = None"
| "serialize Null = Some ''null''"
| "serialize (Bool b) = Some (if b then ''true'' else ''false'')"
| "serialize (Num n) = Some (numberToString n)"
| "serialize (Str s) = Some (quoteJSON s)"
| "serialize (Arr xs) = Some (''['' @ joinWith '','' (serializeElements xs) @ '']'')"
| "serialize (Obj kvs) = Some (''{'' @ joinWith '','' (serializeMembers kvs) @ ''}'')"
| "serializeElements [] = []"
| "serializeElements (x # xs) =
     (case serialize x of None \<Rightarrow> ''null'' | Some t \<Rightarrow> t) # serializeElements xs"
| "serializeMembers [] = []"
| "serializeMembers ((k, v) # kvs) =
     (case serialize v of
        None \<Rightarrow> serializeMembers kvs
      | Some t \<Rightarrow> (quoteJSON k @ '':'' @ t) # serializeMembers kvs)"

definition JSON_stringify :: "object \<Rightarrow> string" where
  \<comment> \<open>\<open>JSON.stringify\<close> of an object of plain data: a property holding \<open>undefined\<close> or a
      function is left out\<close>
  "JSON_stringify kvs = ''{'' @ joinWith '','' (serializeMembers kvs) @ ''}''"

section \<open>The logger\<close>

subsection \<open>Configuration\<close>

text \<open>
  \<open>LogifyPropsType\<close>, lines 4 to 17. A caller-supplied function is modelled by what a
  call to it does: it throws (\<open>Inl\<close>, with the value thrown) or returns (\<open>Inr\<close>), and
  it does the same each time it is called with the same argument. The options that the
  code reads as "a value or a function" are tagged variants.
\<close>

datatype level = Debug | Info | Warn | Error | Fatal

datatype defaultsOption = NoDefaults | DefaultsObject object | DefaultsFunction "jsval + object"

datatype gate = GateUnset | GateBoolean bool | GateFunction "jsval + bool"

record props =
  endpoint :: string
  defaultParams :: defaultsOption
  parseError :: "(jsval \<Rightarrow> jsval + jsval) option"
  shouldSendLogsIf :: gate
  shouldLogToConsole :: gate
  printColors :: "level \<Rightarrow> string option"

text \<open>
  What the logger does to the world: it calls \<open>console.log\<close> with a list of arguments
  and it calls \<open>fetch\<close> with the endpoint and a body (always a POST with the JSON content
  type). The environment gives the clock and says whether initiating a \<open>fetch\<close> throws,
  and then the own enumerable properties of the error object thrown.
\<close>

datatype event = ConsoleLog "jsval list" | Fetch string string

record env =
  now :: int
  fetchThrows :: "object option"

record logEvent =
  jsonLog :: string
  timestamp :: int

text \<open>
  A log call ends by returning or by throwing (\<open>result\<close>); \<open>events\<close> are the sink calls it
  made, in order; \<open>paramsAfter\<close> is the caller's parameter object as the call leaves it.
\<close>

record outcome =
  result :: "jsval + unit"
  events :: "event list"
  paramsAfter :: "object option"

subsection \<open>Console rendering\<close>

fun levelName :: "level \<Rightarrow> string" where
  "levelName Debug = ''debug''"
| "levelName Info = ''info''"
| "levelName Warn = ''warn''"
| "levelName Error = ''error''"
| "levelName Fatal = ''fatal''"

fun getDefaultColorForLoggingLevel :: "level \<Rightarrow> string" where
  "getDefaultColorForLoggingLevel Debug = ''#FFFFFF''"
| "getDefaultColorForLoggingLevel Info = ''#2AA2F6''"
| "getDefaultColorForLoggingLevel Warn = ''#FABA2F''"
| "getDefaultColorForLoggingLevel Error = ''#F35369''"
| "getDefaultColorForLoggingLevel Fatal = ''#F35369''"

definition resolveValue :: "props \<Rightarrow> object \<Rightarrow> string \<Rightarrow> jsval + jsval" where
  \<comment> \<open>lines 83 to 87: the value the rendering uses for a key\<close>
  "resolveValue p params key =
     (case parseError p of
        Some f \<Rightarrow> if key = ''error'' then f (getProperty params key)
                  else Inr (getProperty params key)
      | None \<Rightarrow> Inr (getProperty params key))"

fun forEachKey :: "props \<Rightarrow> object \<Rightarrow> string list \<Rightarrow> string \<Rightarrow> jsval + string" where
  \<comment> \<open>the \<open>keys.forEach\<close> of lines 80 to 94, threading \<open>logString\<close>\<close>
  "forEachKey p params [] logString = Inr logString"
| "forEachKey p params (key # keys) logString =
     (case resolveValue p params key of
        Inl e \<Rightarrow> Inl e
      | Inr v \<Rightarrow>
          forEachKey p params keys
            (if isString v \<or> isNumber v
             then logString @ key @ ''='' @ templateString v @ '' ''
             else logString))"

definition transformObjectToLogString :: "props \<Rightarrow> object option \<Rightarrow> jsval + string" where
  "transformObjectToLogString p params =
     (case params of
        None \<Rightarrow> Inr []
      | Some kvs \<Rightarrow>
          (case forEachKey p kvs (keysOf kvs) [] of
             Inl e \<Rightarrow> Inl e
           | Inr logString \<Rightarrow> Inr (trim logString)))"

definition constructStyledConsoleLogMessage :: "props \<Rightarrow> level \<Rightarrow> string \<Rightarrow> string \<Rightarrow> string list" where
  "constructStyledConsoleLogMessage p type message params =
     (let typeText = toUpperCase (levelName type);
          loggingColor = (case printColors p type of
                            None \<Rightarrow> getDefaultColorForLoggingLevel type
                          | Some c \<Rightarrow> if c = [] then getDefaultColorForLoggingLevel type else c);
          paramsString = (if length params > 0 then params @ [CHR 0x0A, CHR 0x0A] else []);
          title = [CHR 0x0A, CHR 0x0A] @ ''%c'' @ typeText @ ''%c '' @ message
                  @ [CHR 0x0A, CHR 0x0A] @ paramsString;
          titleStyle = ''font-weight: bold; font-size: 14px; color: black; padding: 0px 7px; background-color: ''
                       @ loggingColor @ '';'';
          messageStyle = ''font-weight: bold; font-size: 12px; color: '' @ loggingColor @ '';''
      in [title, titleStyle, messageStyle])"

definition paramLines :: "string \<Rightarrow> string" where
  \<comment> \<open>\<open>.split(' ').join('\n')\<close>\<close>
  "paramLines s = joinWith [CHR 0x0A] (splitOn CHR '' '' s)"

definition debug :: "props \<Rightarrow> string \<Rightarrow> object option \<Rightarrow> outcome" where
  "debug p message params =
     (case transformObjectToLogString p params of
        Inl e \<Rightarrow> \<lparr>result = Inl e, events = [], paramsAfter = params\<rparr>
      | Inr s \<Rightarrow>
          (let logMessage = constructStyledConsoleLogMessage p Debug message (paramLines s)
           in \<lparr>result = Inr (),
               events = [ConsoleLog (map Str logMessage
                           @ [case params of None \<Rightarrow> Str [] | Some kvs \<Rightarrow> Obj kvs])],
               paramsAfter = params\<rparr>))"

subsection \<open>Backend payload\<close>

definition formatError :: "props \<Rightarrow> object option \<Rightarrow> jsval + jsval" where
  \<comment> \<open>lines 121 to 123: \<open>parseError?.(params?.error) || params?.error\<close>\<close>
  "formatError p params =
     (let raw = (case params of None \<Rightarrow> Undefined | Some kvs \<Rightarrow> getProperty kvs ''error'')
      in case parseError p of
           None \<Rightarrow> Inr raw
         | Some f \<Rightarrow> (case f raw of
                       Inl e \<Rightarrow> Inl e
                     | Inr v \<Rightarrow> Inr (if truthy v then v else raw)))"

definition resolveDefaultParams :: "props \<Rightarrow> jsval + object" where
  \<comment> \<open>lines 124 to 128\<close>
  "resolveDefaultParams p =
     (case defaultParams p of
        DefaultsFunction r \<Rightarrow> r
      | DefaultsObject kvs \<Rightarrow> Inr kvs
      | NoDefaults \<Rightarrow> Inr [])"

definition mergeError :: "object option \<Rightarrow> jsval \<Rightarrow> object option \<times> object option" where
  \<comment> \<open>lines 134 to 140, on an ordinary extensible object: the new \<open>paramsToSend\<close>, and
      the caller's object after the \<open>delete\<close>\<close>
  "mergeError params formattedError =
     (case params of
        None \<Rightarrow> (None, None)
      | Some kvs \<Rightarrow>
          if truthy formattedError
          then (let kvs' = (if hasProperty ''error'' kvs then deleteProperty ''error'' kvs else kvs)
                in (Some (spreadInto (spreadInto [] kvs') (ownEnumerable formattedError)),
                    Some kvs'))
          else (Some kvs, Some kvs))"

definition backendPayload :: "level \<Rightarrow> string \<Rightarrow> object \<Rightarrow> object option \<Rightarrow> object" where
  \<comment> \<open>the object literal of lines 143 to 148\<close>
  "backendPayload type message defaults paramsToSend =
     spreadInto
       (spreadInto
          (setProperty ''msg'' (Str (sanitizeMessage message))
             (setProperty ''level'' (Str (toUpperCase (levelName type))) []))
          defaults)
       (case paramsToSend of None \<Rightarrow> [] | Some kvs \<Rightarrow> kvs)"

definition constructBackendLogEvent ::
  "env \<Rightarrow> props \<Rightarrow> level \<Rightarrow> string \<Rightarrow> object option \<Rightarrow> (jsval + logEvent) \<times> object option" where
  "constructBackendLogEvent e p type message params =
     (case formatError p params of
        Inl x \<Rightarrow> (Inl x, params)
      | Inr formattedError \<Rightarrow>
          (case resolveDefaultParams p of
             Inl x \<Rightarrow> (Inl x, params)
           | Inr defaults \<Rightarrow>
               (let (paramsToSend, params') = mergeError params formattedError
                in (Inr \<lparr>jsonLog = JSON_stringify (backendPayload type message defaults paramsToSend),
                         timestamp = now e\<rparr>,
                    params'))))"

subsection \<open>Dispatch\<close>

definition tryFetch :: "env \<Rightarrow> props \<Rightarrow> string \<Rightarrow> event list \<times> (jsval + unit)" where
  \<comment> \<open>\<open>try { fetch(...) } catch (e) { this.debug('error sending log', e) }\<close>\<close>
  "tryFetch e p log =
     (case fetchThrows e of
        None \<Rightarrow> ([Fetch (endpoint p) log], Inr ())
      | Some err \<Rightarrow>
          (let d = debug p ''error sending log'' (Some err)
           in (Fetch (endpoint p) log # events d, result d)))"

definition sendLogToGrafana :: "env \<Rightarrow> props \<Rightarrow> string \<Rightarrow> event list \<times> (jsval + unit)" where
  \<comment> \<open>an \<open>async\<close> function without \<open>await\<close>: its body runs at the call, and what it throws
      rejects the promise it returns (the second component) instead of reaching the caller\<close>
  "sendLogToGrafana e p log =
     (case shouldSendLogsIf p of
        GateUnset \<Rightarrow> tryFetch e p log
      | GateBoolean b \<Rightarrow> if b then tryFetch e p log else ([], Inr ())
      | GateFunction r \<Rightarrow>
          (case r of
             Inl x \<Rightarrow> ([], Inl x)
           | Inr b \<Rightarrow> if b then tryFetch e p log else ([], Inr ())))"

definition shouldLogToConsoleNow :: "props \<Rightarrow> jsval + bool" where
  \<comment> \<open>\<open>_shouldLogToConsole\<close>, lines 220 to 230\<close>
  "shouldLogToConsoleNow p =
     (case shouldLogToConsole p of
        GateUnset \<Rightarrow> Inr True
      | GateBoolean b \<Rightarrow> Inr b
      | GateFunction r \<Rightarrow> r)"

definition logAt :: "level \<Rightarrow> env \<Rightarrow> props \<Rightarrow> string \<Rightarrow> object option \<Rightarrow> outcome" where
  \<comment> \<open>the body that \<open>info\<close>, \<open>warn\<close>, \<open>error\<close> and \<open>fatal\<close> share, with their level\<close>
  "logAt type e p message params =
     (case transformObjectToLogString p params of
        Inl x \<Rightarrow> \<lparr>result = Inl x, events = [], paramsAfter = params\<rparr>
      | Inr s \<Rightarrow>
          (let logMessage = constructStyledConsoleLogMessage p type message (paramLines s)
           in case shouldLogToConsoleNow p of
                Inl x \<Rightarrow> \<lparr>result = Inl x, events = [], paramsAfter = params\<rparr>
              | Inr b \<Rightarrow>
                  (let shown = (if b then [ConsoleLog (map Str logMessage)] else [])
                   in case constructBackendLogEvent e p type message params of
                        (Inl x, params') \<Rightarrow>
                          \<lparr>result = Inl x, events = shown, paramsAfter = params'\<rparr>
                      | (Inr ev, params') \<Rightarrow>
                          \<lparr>result = Inr (),
                           events = shown @ fst (sendLogToGrafana e p (jsonLog ev)),
                           paramsAfter = params'\<rparr>)))"

definition info :: "env \<Rightarrow> props \<Rightarrow> string \<Rightarrow> object option \<Rightarrow> outcome" where
  "info = logAt Info"

definition warn :: "env \<Rightarrow> props \<Rightarrow> string \<Rightarrow> object option \<Rightarrow> outcome" where
  "warn = logAt Warn"

definition error :: "env \<Rightarrow> props \<Rightarrow> string \<Rightarrow> object option \<Rightarrow> outcome" where
  "error = logAt Error"

definition fatal :: "env \<Rightarrow> props \<Rightarrow> string \<Rightarrow> object option \<Rightarrow> outcome" where
  "fatal = logAt Fatal"

section \<open>Example configurations\<close>

text \<open>
  The logger of the specification's scenario (an endpoint and nothing else), a world in
  which \<open>fetch\<close> does not throw, and three error normalisers: one that throws, one that
  returns nothing, and one that returns \<open>{code: 500, detail: "x"}\<close>.
\<close>

definition noColors :: "level \<Rightarrow> string option" where
  "noColors l = None"

definition plainProps :: props where
  "plainProps =
     \<lparr>endpoint = ''https://logs.example/ingest'', defaultParams = NoDefaults,
      parseError = None, shouldSendLogsIf = GateUnset, shouldLogToConsole = GateUnset,
      printColors = noColors\<rparr>"

definition plainEnv :: env where
  "plainEnv = \<lparr>now = 0, fetchThrows = None\<rparr>"

definition throwingParser :: "jsval \<Rightarrow> jsval + jsval" where
  "throwingParser v = Inl (Str ''boom'')"

definition silentParser :: "jsval \<Rightarrow> jsval + jsval" where
  "silentParser v = Inr Undefined"

definition httpParser :: "jsval \<Rightarrow> jsval + jsval" where
  "httpParser v = Inr (Obj [(''code'', Num 500), (''detail'', Str ''x'')])"

definition throwingProps :: props where
  "throwingProps = plainProps\<lparr>parseError := Some throwingParser\<rparr>"

definition silentProps :: props where
  "silentProps = plainProps\<lparr>parseError := Some silentParser\<rparr>"

definition httpProps :: props where
  "httpProps = plainProps\<lparr>parseError := Some httpParser\<rparr>"

fun isFetch :: "event \<Rightarrow> bool" where
  "isFetch (Fetch url body) = True"
| "isFetch (ConsoleLog args) = False"

fun isConsoleLog :: "event \<Rightarrow> bool" where
  "isConsoleLog (ConsoleLog args) = True"
| "isConsoleLog (Fetch url body) = False"

definition normaliserThrowsOn :: "props \<Rightarrow> object option \<Rightarrow> bool" where
  \<comment> \<open>the parameters hold an \<open>error\<close> key and \<open>parseError\<close> throws on its value\<close>
  "normaliserThrowsOn p params =
     (case parseError p of
        None \<Rightarrow> False
      | Some f \<Rightarrow>
          (case params of
             None \<Rightarrow> False
           | Some kvs \<Rightarrow> hasProperty ''error'' kvs \<and> isl (f (getProperty kvs ''error''))))"

text \<open>
  Following the specification's words for the console string (its section 4.1, step A),
  entry by entry and without the code's own functions: for each key of the parameter
  map, if the key is \<open>error\<close> and an error normaliser is configured, the value is replaced
  by the normaliser's output, otherwise the raw value is used; the entry is kept only
  if the resolved value is a string or a number, and rendered as \<open>key=value\<close>; the tokens
  are joined by spaces and the result is trimmed.
\<close>

definition specResolved :: "props \<Rightarrow> string \<Rightarrow> jsval \<Rightarrow> jsval + jsval" where
  "specResolved p k v =
     (if k = ''error''
      then (case parseError p of None \<Rightarrow> Inr v | Some normaliser \<Rightarrow> normaliser v)
      else Inr v)"

definition specToken :: "props \<Rightarrow> string \<times> jsval \<Rightarrow> string list" where
  "specToken p entry =
     (case specResolved p (fst entry) (snd entry) of
        Inl x \<Rightarrow> []
      | Inr (Str s) \<Rightarrow> [fst entry @ ''='' @ s]
      | Inr (Num n) \<Rightarrow> [fst entry @ ''='' @ numberToString n]
      | Inr other \<Rightarrow> [])"

definition specRendering :: "props \<Rightarrow> object \<Rightarrow> string" where
  "specRendering p kvs = trim (joinWith '' '' (concat (map (specToken p) kvs)))"

section \<open>Exceptions of the error normaliser\<close>

lemma forEachKey_throws:
  "parseError p = Some f \<Longrightarrow> f (getProperty kvs ''error'') = Inl x \<Longrightarrow> ''error'' \<in> set ks
     \<Longrightarrow> forEachKey p kvs ks acc = Inl x"
  by (induction ks arbitrary: acc) (auto simp: resolveValue_def)

lemma transform_throws:
  "parseError p = Some f \<Longrightarrow> f (getProperty kvs ''error'') = Inl x \<Longrightarrow> hasProperty ''error'' kvs
     \<Longrightarrow> transformObjectToLogString p (Some kvs) = Inl x"
  by (simp add: transformObjectToLogString_def hasProperty_def forEachKey_throws)

lemma forEachKey_returns:
  "\<forall>k \<in> set ks. \<not> isl (resolveValue p kvs k) \<Longrightarrow> \<not> isl (forEachKey p kvs ks acc)"
  by (induction ks arbitrary: acc) (auto split: sum.splits)

lemma resolveValue_returns:
  "\<not> normaliserThrowsOn p (Some kvs) \<Longrightarrow> k \<in> set (keysOf kvs) \<Longrightarrow> \<not> isl (resolveValue p kvs k)"
  by (auto simp: normaliserThrowsOn_def resolveValue_def hasProperty_def split: option.splits)

lemma transform_returns:
  assumes "\<not> normaliserThrowsOn p params"
  shows "\<not> isl (transformObjectToLogString p params)"
proof (cases params)
  case None
  then show ?thesis by (simp add: transformObjectToLogString_def)
next
  case (Some kvs)
  have "\<forall>k \<in> set (keysOf kvs). \<not> isl (resolveValue p kvs k)"
    using assms Some resolveValue_returns by blast
  then have "\<not> isl (forEachKey p kvs (keysOf kvs) [])"
    by (rule forEachKey_returns)
  then show ?thesis
    using Some
    by (cases "forEachKey p kvs (keysOf kvs) []") (simp_all add: transformObjectToLogString_def)
qed

text \<open>
  Claim C1, as the code has it. No log method catches what \<open>parseError\<close> throws: when
  the parameters hold an \<open>error\<close> key and \<open>parseError\<close> throws on its value, each of
  \<open>debug\<close>, \<open>info\<close>, \<open>warn\<close>, \<open>error\<close> and \<open>fatal\<close> ends by throwing that same value to
  its caller, before any console write or send, and leaves the parameters as they were.
\<close>

theorem parseError_exception_reaches_caller:
  assumes "parseError p = Some f" and "hasProperty ''error'' kvs"
    and "f (getProperty kvs ''error'') = Inl x"
  shows "debug p message (Some kvs) = \<lparr>result = Inl x, events = [], paramsAfter = Some kvs\<rparr>
       \<and> info e p message (Some kvs) = \<lparr>result = Inl x, events = [], paramsAfter = Some kvs\<rparr>
       \<and> warn e p message (Some kvs) = \<lparr>result = Inl x, events = [], paramsAfter = Some kvs\<rparr>
       \<and> error e p message (Some kvs) = \<lparr>result = Inl x, events = [], paramsAfter = Some kvs\<rparr>
       \<and> fatal e p message (Some kvs) = \<lparr>result = Inl x, events = [], paramsAfter = Some kvs\<rparr>"
  using transform_throws [OF assms(1) assms(3) assms(2)]
  by (simp add: debug_def info_def warn_def error_def fatal_def logAt_def)

theorem parseError_exception_reaches_caller_witness:
  "parseError throwingProps = Some throwingParser
   \<and> hasProperty ''error'' [(''error'', Num 1)]
   \<and> throwingParser (getProperty [(''error'', Num 1)] ''error'') = Inl (Str ''boom'')
   \<and> debug throwingProps ''m'' (Some [(''error'', Num 1)])
       = \<lparr>result = Inl (Str ''boom''), events = [], paramsAfter = Some [(''error'', Num 1)]\<rparr>
   \<and> fatal plainEnv throwingProps ''m'' (Some [(''error'', Num 1)])
       = \<lparr>result = Inl (Str ''boom''), events = [], paramsAfter = Some [(''error'', Num 1)]\<rparr>"
proof -
  have h1: "parseError throwingProps = Some throwingParser"
    by (simp add: throwingProps_def)
  have h2: "hasProperty ''error'' [(''error'', Num 1)]"
    by (simp add: hasProperty_def keysOf_def)
  have h3: "throwingParser (getProperty [(''error'', Num 1)] ''error'') = Inl (Str ''boom'')"
    by (simp add: throwingParser_def)
  show ?thesis
    using h1 h2 h3 parseError_exception_reaches_caller [OF h1 h2 h3, of "''m''" plainEnv]
    by simp
qed

text \<open>
  Claim C1 as stated fails: with a normaliser that throws, \<open>info\<close> on parameters holding
  an \<open>error\<close> key ends with the exception.
\<close>

theorem parseError_exception_not_caught:
  "result (info plainEnv throwingProps ''m'' (Some [(''error'', Num 1)])) = Inl (Str ''boom'')"
  by code_simp

section \<open>The debug level\<close>

lemma debug_no_fetch: "filter isFetch (events (debug p message params)) = []"
  by (simp add: debug_def split: sum.splits)

lemma transform_ignores_gates:
  "transformObjectToLogString (p\<lparr>shouldSendLogsIf := g, shouldLogToConsole := h\<rparr>) params
     = transformObjectToLogString p params"
proof -
  have fe: "forEachKey (p\<lparr>shouldSendLogsIf := g, shouldLogToConsole := h\<rparr>) kvs ks acc
          = forEachKey p kvs ks acc" for kvs ks acc
    by (induction ks arbitrary: acc)
       (simp_all add: resolveValue_def split: sum.splits option.splits)
  show ?thesis
    by (cases params) (simp_all add: transformObjectToLogString_def fe)
qed

lemma transform_throws_when:
  assumes "normaliserThrowsOn p params"
  shows "\<exists>x. transformObjectToLogString p params = Inl x"
proof -
  obtain f kvs where f: "parseError p = Some f" and k: "params = Some kvs"
    and h: "hasProperty ''error'' kvs" and t: "isl (f (getProperty kvs ''error''))"
    using assms by (auto simp: normaliserThrowsOn_def split: option.splits)
  obtain x where "f (getProperty kvs ''error'') = Inl x"
    using t by (cases "f (getProperty kvs ''error'')") auto
  then show ?thesis
    using transform_throws [OF f _ h] k by blast
qed

text \<open>
  Claim C2, as the code has it. For every message, parameter map and configuration,
  \<open>debug\<close> never calls \<open>fetch\<close> and does the same whatever the two gates are. It returns
  after exactly one console write, unless the parameters hold an \<open>error\<close> key on whose
  value \<open>parseError\<close> throws; then it throws and writes nothing.
\<close>

theorem debug_is_console_only:
  "filter isFetch (events (debug p message params)) = []
   \<and> debug (p\<lparr>shouldSendLogsIf := g, shouldLogToConsole := h\<rparr>) message params
       = debug p message params
   \<and> (\<not> normaliserThrowsOn p params \<longrightarrow>
        result (debug p message params) = Inr ()
        \<and> length (filter isConsoleLog (events (debug p message params))) = 1)
   \<and> (normaliserThrowsOn p params \<longrightarrow>
        isl (result (debug p message params)) \<and> events (debug p message params) = [])"
proof (intro conjI impI)
  show "filter isFetch (events (debug p message params)) = []"
    by (rule debug_no_fetch)
  show "debug (p\<lparr>shouldSendLogsIf := g, shouldLogToConsole := h\<rparr>) message params
          = debug p message params"
    by (cases "transformObjectToLogString p params")
       (simp_all add: debug_def transform_ignores_gates constructStyledConsoleLogMessage_def)
next
  assume "\<not> normaliserThrowsOn p params"
  then obtain s where s: "transformObjectToLogString p params = Inr s"
    using transform_returns [of p params] by (cases "transformObjectToLogString p params") auto
  show "result (debug p message params) = Inr ()"
    by (simp add: debug_def s)
  show "length (filter isConsoleLog (events (debug p message params))) = 1"
    by (simp add: debug_def s)
next
  assume "normaliserThrowsOn p params"
  then obtain x where x: "transformObjectToLogString p params = Inl x"
    using transform_throws_when by blast
  show "isl (result (debug p message params))"
    by (simp add: debug_def x)
  show "events (debug p message params) = []"
    by (simp add: debug_def x)
qed

theorem debug_is_console_only_witness:
  "\<not> normaliserThrowsOn plainProps (Some [(''a'', Num 1)])
   \<and> result (debug plainProps ''x'' (Some [(''a'', Num 1)])) = Inr ()
   \<and> length (filter isConsoleLog (events (debug plainProps ''x'' (Some [(''a'', Num 1)])))) = 1
   \<and> filter isFetch (events (debug plainProps ''x'' (Some [(''a'', Num 1)]))) = []
   \<and> normaliserThrowsOn throwingProps (Some [(''error'', Num 1)])
   \<and> isl (result (debug throwingProps ''x'' (Some [(''error'', Num 1)])))
   \<and> events (debug throwingProps ''x'' (Some [(''error'', Num 1)])) = []"
proof -
  have h: "\<not> normaliserThrowsOn plainProps (Some [(''a'', Num 1)])"
    by (simp add: normaliserThrowsOn_def plainProps_def)
  have t: "normaliserThrowsOn throwingProps (Some [(''error'', Num 1)])"
    by (simp add: normaliserThrowsOn_def throwingProps_def throwingParser_def hasProperty_def
          keysOf_def)
  show ?thesis
    using h t debug_is_console_only [of plainProps "''x''" "Some [(''a'', Num 1)]"]
      debug_is_console_only [of throwingProps "''x''" "Some [(''error'', Num 1)]"]
    by simp
qed

text \<open>
  Claim C2 as stated fails: with a normaliser that throws, \<open>debug\<close> on parameters holding
  an \<open>error\<close> key writes nothing to the console.
\<close>

theorem debug_writes_nothing_when_parseError_throws:
  "filter isConsoleLog (events (debug throwingProps ''x'' (Some [(''error'', Num 1)]))) = []"
  by code_simp

section \<open>The send gate\<close>

lemma tryFetch_fetches:
  "filter isFetch (fst (tryFetch e p log)) = [Fetch (endpoint p) log]"
  by (simp add: tryFetch_def debug_no_fetch Let_def split: option.splits)

lemma send_unset:
  "shouldSendLogsIf p = GateUnset \<Longrightarrow>
     filter isFetch (fst (sendLogToGrafana e p log)) = [Fetch (endpoint p) log]"
  by (simp add: sendLogToGrafana_def tryFetch_fetches)

lemma send_false:
  "shouldSendLogsIf p = GateBoolean False \<Longrightarrow> fst (sendLogToGrafana e p log) = []"
  by (simp add: sendLogToGrafana_def)

lemma logAt_fetches_when_returned:
  assumes "result (logAt type e p message params) = Inr ()"
  shows "\<exists>log. filter isFetch (events (logAt type e p message params))
                 = filter isFetch (fst (sendLogToGrafana e p log))"
proof -
  obtain s where s: "transformObjectToLogString p params = Inr s"
    using assms by (cases "transformObjectToLogString p params") (simp_all add: logAt_def)
  obtain b where b: "shouldLogToConsoleNow p = Inr b"
    using assms s by (cases "shouldLogToConsoleNow p") (simp_all add: logAt_def Let_def)
  obtain r params' where c: "constructBackendLogEvent e p type message params = (r, params')"
    by (cases "constructBackendLogEvent e p type message params")
  obtain ev where ev: "r = Inr ev"
    using assms s b c by (cases r) (simp_all add: logAt_def Let_def)
  have "filter isFetch (events (logAt type e p message params))
          = filter isFetch (fst (sendLogToGrafana e p (jsonLog ev)))"
    by (simp add: logAt_def Let_def s b c ev)
  then show ?thesis by blast
qed

lemma logAt_silent_when_gated:
  assumes "shouldSendLogsIf p = GateBoolean False"
  shows "filter isFetch (events (logAt type e p message params)) = []"
  using send_false [OF assms, of e]
  by (auto simp: logAt_def Let_def split: sum.splits prod.splits)

text \<open>
  Claim C3, as the code has it. For \<open>info\<close>, \<open>warn\<close>, \<open>error\<close> and \<open>fatal\<close>, every message
  and every parameter map: when \<open>shouldSendLogsIf\<close> is the boolean \<open>false\<close> the call never
  calls \<open>fetch\<close>; when it is not configured, a call that returns has called \<open>fetch\<close>
  exactly once, on the configured endpoint.
\<close>

theorem send_gate_dispatch:
  assumes "f \<in> {info, warn, error, fatal}"
  shows "(shouldSendLogsIf p = GateBoolean False \<longrightarrow>
            filter isFetch (events (f e p message params)) = [])
       \<and> (shouldSendLogsIf p = GateUnset \<and> result (f e p message params) = Inr () \<longrightarrow>
            (\<exists>body. filter isFetch (events (f e p message params))
                      = [Fetch (endpoint p) body]))"
proof -
  obtain type where f: "f = logAt type"
    using assms by (auto simp: info_def warn_def error_def fatal_def)
  show ?thesis
  proof (intro conjI impI)
    assume "shouldSendLogsIf p = GateBoolean False"
    then show "filter isFetch (events (f e p message params)) = []"
      unfolding f by (rule logAt_silent_when_gated)
  next
    assume a: "shouldSendLogsIf p = GateUnset \<and> result (f e p message params) = Inr ()"
    then obtain log where
      "filter isFetch (events (logAt type e p message params))
         = filter isFetch (fst (sendLogToGrafana e p log))"
      using logAt_fetches_when_returned [of type e p message params] f by auto
    then have "filter isFetch (events (f e p message params)) = [Fetch (endpoint p) log]"
      using a by (simp add: f send_unset)
    then show "\<exists>body. filter isFetch (events (f e p message params))
                       = [Fetch (endpoint p) body]"
      by blast
  qed
qed

theorem send_gate_dispatch_witness:
  "info \<in> {info, warn, error, fatal}
   \<and> shouldSendLogsIf plainProps = GateUnset
   \<and> result (info plainEnv plainProps ''user login'' (Some [(''userId'', Num 42)])) = Inr ()
   \<and> (\<exists>body. filter isFetch (events (info plainEnv plainProps ''user login''
                                        (Some [(''userId'', Num 42)])))
                = [Fetch (endpoint plainProps) body])
   \<and> shouldSendLogsIf (plainProps\<lparr>shouldSendLogsIf := GateBoolean False\<rparr>) = GateBoolean False
   \<and> filter isFetch (events (info plainEnv (plainProps\<lparr>shouldSendLogsIf := GateBoolean False\<rparr>)
                                ''user login'' (Some [(''userId'', Num 42)]))) = []"
proof -
  have h: "info \<in> {info, warn, error, fatal}" by simp
  have u: "shouldSendLogsIf plainProps = GateUnset"
    by (simp add: plainProps_def)
  have r: "result (info plainEnv plainProps ''user login'' (Some [(''userId'', Num 42)])) = Inr ()"
    by code_simp
  have b: "shouldSendLogsIf (plainProps\<lparr>shouldSendLogsIf := GateBoolean False\<rparr>) = GateBoolean False"
    by simp
  show ?thesis
    using h u r b
      send_gate_dispatch [OF h, of plainProps plainEnv "''user login''"
                            "Some [(''userId'', Num 42)]"]
      send_gate_dispatch [OF h, of "plainProps\<lparr>shouldSendLogsIf := GateBoolean False\<rparr>" plainEnv
                            "''user login''" "Some [(''userId'', Num 42)]"]
    by simp
qed

text \<open>
  Claim C3 as stated fails: with \<open>shouldSendLogsIf\<close> not configured and a normaliser that
  throws, \<open>info\<close> on parameters holding an \<open>error\<close> key attempts no send.
\<close>

theorem no_send_attempt_when_parseError_throws:
  "shouldSendLogsIf throwingProps = GateUnset
   \<and> filter isFetch (events (info plainEnv throwingProps ''m'' (Some [(''error'', Num 1)]))) = []"
  by code_simp

section \<open>Objects as maps\<close>

lemma map_of_insertIndexed:
  "k \<notin> fst ` set kvs \<Longrightarrow> map_of (insertIndexed k v kvs) = (map_of kvs)(k \<mapsto> v)"
  by (induction kvs) (auto simp: fun_upd_twist)

lemma map_of_overwrite_at:
  "map_of (map (\<lambda>kv. if fst kv = k then (k, v) else kv) kvs) x
     = (if x = k then (if k \<in> fst ` set kvs then Some v else None) else map_of kvs x)"
proof (induction kvs)
  case Nil
  then show ?case by simp
next
  case (Cons kv kvs)
  then show ?case by (cases kv) force
qed

lemma map_of_overwrite:
  "k \<in> fst ` set kvs \<Longrightarrow>
     map_of (map (\<lambda>kv. if fst kv = k then (k, v) else kv) kvs) = (map_of kvs)(k \<mapsto> v)"
  by (rule ext) (simp add: map_of_overwrite_at)

lemma map_of_snoc:
  "k \<notin> fst ` set kvs \<Longrightarrow> map_of (kvs @ [(k, v)]) = (map_of kvs)(k \<mapsto> v)"
proof
  fix x
  assume "k \<notin> fst ` set kvs"
  then have "map_of kvs k = None"
    by (simp add: map_of_eq_None_iff)
  then show "map_of (kvs @ [(k, v)]) x = ((map_of kvs)(k \<mapsto> v)) x"
    by (simp add: map_add_def split: option.splits)
qed

lemma map_of_setProperty: "map_of (setProperty k v kvs) = (map_of kvs)(k \<mapsto> v)"
  by (simp add: setProperty_def hasProperty_def keysOf_def map_of_insertIndexed
        map_of_overwrite map_of_snoc del: map_of_append)

lemma map_of_fold_setProperty:
  "map_of (fold (\<lambda>k t. setProperty k (g k) t) ks t) x
     = (if x \<in> set ks then Some (g x) else map_of t x)"
  by (induction ks arbitrary: t) (auto simp: map_of_setProperty)

lemma getProperty_of_key:
  "x \<in> set (keysOf kvs) \<Longrightarrow> map_of kvs x = Some (getProperty kvs x)"
  by (cases "map_of kvs x") (auto simp: getProperty_def keysOf_def map_of_eq_None_iff)

lemma map_of_spreadInto: "map_of (spreadInto t s) = map_of t ++ map_of s"
proof
  fix x
  show "map_of (spreadInto t s) x = (map_of t ++ map_of s) x"
  proof (cases "x \<in> set (keysOf s)")
    case True
    then show ?thesis
      by (simp add: spreadInto_def map_of_fold_setProperty getProperty_of_key map_add_def)
  next
    case False
    then have "map_of s x = None"
      by (simp add: keysOf_def map_of_eq_None_iff)
    then show ?thesis
      using False by (simp add: spreadInto_def map_of_fold_setProperty map_add_def)
  qed
qed

lemma map_of_backendPayload:
  "map_of (backendPayload type message defaults remaining)
     = [''level'' \<mapsto> Str (toUpperCase (levelName type)),
        ''msg'' \<mapsto> Str (sanitizeMessage message)]
       ++ map_of defaults
       ++ map_of (case remaining of None \<Rightarrow> [] | Some kvs \<Rightarrow> kvs)"
  by (simp add: backendPayload_def map_of_spreadInto map_of_setProperty)

lemma map_of_deleteProperty:
  "map_of (deleteProperty k kvs) = (map_of kvs)(k := None)"
  by (induction kvs) (auto simp: deleteProperty_def)

lemma hasProperty_delete: "\<not> hasProperty k (deleteProperty k kvs)"
  by (auto simp: hasProperty_def deleteProperty_def keysOf_def)

lemma delete_changes: "hasProperty k kvs \<Longrightarrow> deleteProperty k kvs \<noteq> kvs"
  using hasProperty_delete [of k kvs] by auto

lemma hasProperty_map_of: "hasProperty k kvs \<Longrightarrow> map_of kvs k = Some (getProperty kvs k)"
  by (simp add: hasProperty_def getProperty_of_key)

lemma construct_event:
  "formatError p params = Inr fe \<Longrightarrow> resolveDefaultParams p = Inr defaults \<Longrightarrow>
     constructBackendLogEvent e p type message params
       = (Inr \<lparr>jsonLog = JSON_stringify
                           (backendPayload type message defaults (fst (mergeError params fe))),
               timestamp = now e\<rparr>,
          snd (mergeError params fe))"
  by (simp add: constructBackendLogEvent_def Let_def split: prod.splits)

section \<open>The backend payload\<close>

text \<open>
  Claim C7. Every backend log event carries the JSON text of the object
  \<open>{level, msg, ...defaultParams, ...remainingParams}\<close>, the defaults spread before the
  remaining call parameters: read as a map, the object is the two fixed fields,
  overridden by the defaults, overridden by the remaining parameters. With the
  defaults \<open>{env: "prod"}\<close> and the parameters \<open>{env: "dev", code: 7}\<close> the JSON text has
  \<open>env: "dev"\<close> and \<open>code: 7\<close>.
\<close>

theorem payload_merge_order:
  "(formatError p params = Inr fe \<and> resolveDefaultParams p = Inr defaults \<longrightarrow>
      fst (constructBackendLogEvent e p type message params)
        = Inr \<lparr>jsonLog = JSON_stringify
                           (backendPayload type message defaults (fst (mergeError params fe))),
               timestamp = now e\<rparr>)
   \<and> map_of (backendPayload type message defaults remaining)
       = [''level'' \<mapsto> Str (toUpperCase (levelName type)),
          ''msg'' \<mapsto> Str (sanitizeMessage message)]
         ++ map_of defaults
         ++ map_of (case remaining of None \<Rightarrow> [] | Some kvs \<Rightarrow> kvs)
   \<and> JSON_stringify (backendPayload type message [(''env'', Str ''prod'')]
                        (Some [(''env'', Str ''dev''), (''code'', Num 7)]))
       = ''{'' @ quoteJSON ''level'' @ '':'' @ quoteJSON (toUpperCase (levelName type))
         @ '','' @ quoteJSON ''msg'' @ '':'' @ quoteJSON (sanitizeMessage message)
         @ '','' @ quoteJSON ''env'' @ '':'' @ quoteJSON ''dev''
         @ '','' @ quoteJSON ''code'' @ '':7}''"
proof (intro conjI impI)
  assume "formatError p params = Inr fe \<and> resolveDefaultParams p = Inr defaults"
  then show "fst (constructBackendLogEvent e p type message params)
        = Inr \<lparr>jsonLog = JSON_stringify
                           (backendPayload type message defaults (fst (mergeError params fe))),
               timestamp = now e\<rparr>"
    by (simp add: construct_event)
next
  show "map_of (backendPayload type message defaults remaining)
       = [''level'' \<mapsto> Str (toUpperCase (levelName type)),
          ''msg'' \<mapsto> Str (sanitizeMessage message)]
         ++ map_of defaults
         ++ map_of (case remaining of None \<Rightarrow> [] | Some kvs \<Rightarrow> kvs)"
    by (rule map_of_backendPayload)
next
  have n7: "numberToString 7 = ''7''" by code_simp
  have i1: "\<not> isArrayIndex ''level''" "\<not> isArrayIndex ''msg''" "\<not> isArrayIndex ''env''"
    "\<not> isArrayIndex ''code''" by code_simp+
  show "JSON_stringify (backendPayload type message [(''env'', Str ''prod'')]
                        (Some [(''env'', Str ''dev''), (''code'', Num 7)]))
       = ''{'' @ quoteJSON ''level'' @ '':'' @ quoteJSON (toUpperCase (levelName type))
         @ '','' @ quoteJSON ''msg'' @ '':'' @ quoteJSON (sanitizeMessage message)
         @ '','' @ quoteJSON ''env'' @ '':'' @ quoteJSON ''dev''
         @ '','' @ quoteJSON ''code'' @ '':7}''"
    by (simp add: JSON_stringify_def backendPayload_def spreadInto_def setProperty_def
          hasProperty_def keysOf_def getProperty_def n7 i1)
qed

theorem payload_merge_order_witness:
  "formatError (plainProps\<lparr>defaultParams := DefaultsObject [(''env'', Str ''prod'')]\<rparr>)
       (Some [(''env'', Str ''dev''), (''code'', Num 7)]) = Inr Undefined
   \<and> resolveDefaultParams (plainProps\<lparr>defaultParams := DefaultsObject [(''env'', Str ''prod'')]\<rparr>)
       = Inr [(''env'', Str ''prod'')]
   \<and> fst (constructBackendLogEvent plainEnv
            (plainProps\<lparr>defaultParams := DefaultsObject [(''env'', Str ''prod'')]\<rparr>)
            Info ''Checkout done.'' (Some [(''env'', Str ''dev''), (''code'', Num 7)]))
       = Inr \<lparr>jsonLog = ''{'' @ quoteJSON ''level'' @ '':'' @ quoteJSON ''INFO''
                 @ '','' @ quoteJSON ''msg'' @ '':'' @ quoteJSON ''checkout done''
                 @ '','' @ quoteJSON ''env'' @ '':'' @ quoteJSON ''dev''
                 @ '','' @ quoteJSON ''code'' @ '':7}'',
              timestamp = now plainEnv\<rparr>"
proof -
  have h1: "formatError (plainProps\<lparr>defaultParams := DefaultsObject [(''env'', Str ''prod'')]\<rparr>)
       (Some [(''env'', Str ''dev''), (''code'', Num 7)]) = Inr Undefined"
    by code_simp
  have h2: "resolveDefaultParams (plainProps\<lparr>defaultParams := DefaultsObject [(''env'', Str ''prod'')]\<rparr>)
       = Inr [(''env'', Str ''prod'')]"
    by (simp add: resolveDefaultParams_def)
  have m: "fst (mergeError (Some [(''env'', Str ''dev''), (''code'', Num 7)]) Undefined)
             = Some [(''env'', Str ''dev''), (''code'', Num 7)]"
    by (simp add: mergeError_def)
  have u: "toUpperCase (levelName Info) = ''INFO''" by code_simp
  have s: "sanitizeMessage ''Checkout done.'' = ''checkout done''" by code_simp
  show ?thesis
    using h1 h2 m u s
      payload_merge_order
        [of "plainProps\<lparr>defaultParams := DefaultsObject [(''env'', Str ''prod'')]\<rparr>"
            "Some [(''env'', Str ''dev''), (''code'', Num 7)]" Undefined
            "[(''env'', Str ''prod'')]" plainEnv Info "''Checkout done.''"]
    by simp
qed

text \<open>
  Claim C8, as the code has it. When the parameters hold an \<open>error\<close> key and \<open>parseError\<close>
  returns \<open>{code: 500, detail: "x"}\<close> for its value, the serialised payload has \<open>code\<close> and
  \<open>detail\<close> as top-level fields, and its \<open>error\<close> field is the one of the default
  parameters: none when the defaults supply none.
\<close>

theorem normalised_error_replaces_error_field:
  assumes "parseError p = Some f" and "hasProperty ''error'' kvs"
    and "f (getProperty kvs ''error'') = Inr (Obj [(''code'', Num 500), (''detail'', Str ''x'')])"
    and "resolveDefaultParams p = Inr defaults"
  shows "(let payload = backendPayload type message defaults
                          (Some (spreadInto (spreadInto [] (deleteProperty ''error'' kvs))
                                   [(''code'', Num 500), (''detail'', Str ''x'')]))
         in fst (constructBackendLogEvent e p type message (Some kvs))
              = Inr \<lparr>jsonLog = JSON_stringify payload, timestamp = now e\<rparr>
            \<and> map_of payload ''code'' = Some (Num 500)
            \<and> map_of payload ''detail'' = Some (Str ''x'')
            \<and> map_of payload ''error'' = map_of defaults ''error'')"
proof -
  have fe: "formatError p (Some kvs) = Inr (Obj [(''code'', Num 500), (''detail'', Str ''x'')])"
    using assms(1,3) by (simp add: formatError_def)
  have me: "fst (mergeError (Some kvs) (Obj [(''code'', Num 500), (''detail'', Str ''x'')]))
              = Some (spreadInto (spreadInto [] (deleteProperty ''error'' kvs))
                        [(''code'', Num 500), (''detail'', Str ''x'')])"
    using assms(2) by (simp add: mergeError_def Let_def)
  show ?thesis
    using construct_event [OF fe assms(4), of e type message]
    by (simp add: me Let_def map_of_backendPayload map_of_spreadInto map_of_deleteProperty
          map_add_def split: option.splits)
qed

theorem normalised_error_replaces_error_field_witness:
  "parseError httpProps = Some httpParser
   \<and> hasProperty ''error'' [(''error'', Num 1), (''a'', Str ''b'')]
   \<and> httpParser (getProperty [(''error'', Num 1), (''a'', Str ''b'')] ''error'')
       = Inr (Obj [(''code'', Num 500), (''detail'', Str ''x'')])
   \<and> resolveDefaultParams httpProps = Inr []
   \<and> (let payload = backendPayload Info ''m'' []
                       (Some (spreadInto (spreadInto [] (deleteProperty ''error''
                                                          [(''error'', Num 1), (''a'', Str ''b'')]))
                                [(''code'', Num 500), (''detail'', Str ''x'')]))
      in fst (constructBackendLogEvent plainEnv httpProps Info ''m''
                (Some [(''error'', Num 1), (''a'', Str ''b'')]))
           = Inr \<lparr>jsonLog = JSON_stringify payload, timestamp = now plainEnv\<rparr>
         \<and> map_of payload ''code'' = Some (Num 500)
         \<and> map_of payload ''detail'' = Some (Str ''x'')
         \<and> map_of payload ''error'' = None)
   \<and> fst (constructBackendLogEvent plainEnv httpProps Info ''m''
            (Some [(''error'', Num 1), (''a'', Str ''b'')]))
       = Inr \<lparr>jsonLog = ''{'' @ quoteJSON ''level'' @ '':'' @ quoteJSON ''INFO''
                 @ '','' @ quoteJSON ''msg'' @ '':'' @ quoteJSON ''m''
                 @ '','' @ quoteJSON ''a'' @ '':'' @ quoteJSON ''b''
                 @ '','' @ quoteJSON ''code'' @ '':500''
                 @ '','' @ quoteJSON ''detail'' @ '':'' @ quoteJSON ''x'' @ ''}'',
              timestamp = 0\<rparr>"
proof -
  have h1: "parseError httpProps = Some httpParser"
    by (simp add: httpProps_def)
  have h2: "hasProperty ''error'' [(''error'', Num 1), (''a'', Str ''b'')]"
    by (simp add: hasProperty_def keysOf_def)
  have h3: "httpParser (getProperty [(''error'', Num 1), (''a'', Str ''b'')] ''error'')
              = Inr (Obj [(''code'', Num 500), (''detail'', Str ''x'')])"
    by (simp add: httpParser_def)
  have h4: "resolveDefaultParams httpProps = Inr []"
    by (simp add: resolveDefaultParams_def httpProps_def plainProps_def)
  have j: "fst (constructBackendLogEvent plainEnv httpProps Info ''m''
            (Some [(''error'', Num 1), (''a'', Str ''b'')]))
       = Inr \<lparr>jsonLog = ''{'' @ quoteJSON ''level'' @ '':'' @ quoteJSON ''INFO''
                 @ '','' @ quoteJSON ''msg'' @ '':'' @ quoteJSON ''m''
                 @ '','' @ quoteJSON ''a'' @ '':'' @ quoteJSON ''b''
                 @ '','' @ quoteJSON ''code'' @ '':500''
                 @ '','' @ quoteJSON ''detail'' @ '':'' @ quoteJSON ''x'' @ ''}'',
              timestamp = 0\<rparr>"
    by code_simp
  show ?thesis
    using h1 h2 h3 h4 j
      normalised_error_replaces_error_field [OF h1 h2 h3 h4, of Info "''m''" plainEnv]
    by (simp add: Let_def)
qed

text \<open>
  Claim C8 as stated fails: an \<open>error\<close> field of the default parameters stays in the
  payload.
\<close>

theorem default_error_field_survives:
  "fst (constructBackendLogEvent plainEnv
          (httpProps\<lparr>defaultParams := DefaultsObject [(''error'', Str ''d'')]\<rparr>)
          Info ''m'' (Some [(''error'', Num 1)]))
     = Inr \<lparr>jsonLog = ''{'' @ quoteJSON ''level'' @ '':'' @ quoteJSON ''INFO''
               @ '','' @ quoteJSON ''msg'' @ '':'' @ quoteJSON ''m''
               @ '','' @ quoteJSON ''error'' @ '':'' @ quoteJSON ''d''
               @ '','' @ quoteJSON ''code'' @ '':500''
               @ '','' @ quoteJSON ''detail'' @ '':'' @ quoteJSON ''x'' @ ''}'',
            timestamp = 0\<rparr>"
  by code_simp

text \<open>
  Claim C4, as the code has it. When \<open>parseError\<close> returns a falsy result for the value
  under the \<open>error\<close> key, the raw value takes its place. If the raw value is falsy too
  (\<open>0\<close>, the empty string, \<open>false\<close>), the raw \<open>error\<close> field stays in the payload,
  unmerged. If the raw value is truthy, the \<open>error\<close> key is deleted from the parameters
  and the raw value's own enumerable properties are merged in its place, so that the
  payload has an \<open>error\<close> field only when the defaults or the raw value itself supply one.
\<close>

theorem falsy_parseError_falls_back_to_raw:
  assumes "parseError p = Some f" and "hasProperty ''error'' kvs"
    and "f (getProperty kvs ''error'') = Inr v" and "\<not> truthy v"
    and "resolveDefaultParams p = Inr defaults"
  shows "(\<not> truthy (getProperty kvs ''error'') \<longrightarrow>
            constructBackendLogEvent e p type message (Some kvs)
              = (Inr \<lparr>jsonLog = JSON_stringify (backendPayload type message defaults (Some kvs)),
                      timestamp = now e\<rparr>, Some kvs)
            \<and> map_of (backendPayload type message defaults (Some kvs)) ''error''
                = Some (getProperty kvs ''error''))
       \<and> (truthy (getProperty kvs ''error'') \<longrightarrow>
            (let merged = spreadInto (spreadInto [] (deleteProperty ''error'' kvs))
                            (ownEnumerable (getProperty kvs ''error''))
             in constructBackendLogEvent e p type message (Some kvs)
                  = (Inr \<lparr>jsonLog = JSON_stringify
                                      (backendPayload type message defaults (Some merged)),
                          timestamp = now e\<rparr>, Some (deleteProperty ''error'' kvs))
                \<and> map_of (backendPayload type message defaults (Some merged)) ''error''
                    = (map_of defaults ++ map_of (ownEnumerable (getProperty kvs ''error'')))
                        ''error''))"
proof -
  have fe: "formatError p (Some kvs) = Inr (getProperty kvs ''error'')"
    using assms(1,3,4) by (simp add: formatError_def)
  note ev = construct_event [OF fe assms(5), of e type message]
  show ?thesis
  proof (intro conjI impI)
    assume falsy: "\<not> truthy (getProperty kvs ''error'')"
    then show "constructBackendLogEvent e p type message (Some kvs)
              = (Inr \<lparr>jsonLog = JSON_stringify (backendPayload type message defaults (Some kvs)),
                      timestamp = now e\<rparr>, Some kvs)"
      using ev by (simp add: mergeError_def Let_def)
    show "map_of (backendPayload type message defaults (Some kvs)) ''error''
            = Some (getProperty kvs ''error'')"
      using assms(2) by (simp add: map_of_backendPayload hasProperty_map_of)
  next
    assume "truthy (getProperty kvs ''error'')"
    then show "(let merged = spreadInto (spreadInto [] (deleteProperty ''error'' kvs))
                            (ownEnumerable (getProperty kvs ''error''))
             in constructBackendLogEvent e p type message (Some kvs)
                  = (Inr \<lparr>jsonLog = JSON_stringify
                                      (backendPayload type message defaults (Some merged)),
                          timestamp = now e\<rparr>, Some (deleteProperty ''error'' kvs))
                \<and> map_of (backendPayload type message defaults (Some merged)) ''error''
                    = (map_of defaults ++ map_of (ownEnumerable (getProperty kvs ''error'')))
                        ''error'')"
      using ev assms(2)
      by (simp add: mergeError_def Let_def map_of_backendPayload map_of_spreadInto
            map_of_deleteProperty map_add_def split: option.splits)
  qed
qed

theorem falsy_parseError_falls_back_to_raw_witness:
  "parseError silentProps = Some silentParser
   \<and> resolveDefaultParams silentProps = Inr []
   \<and> hasProperty ''error'' [(''error'', Num 0)]
   \<and> silentParser (getProperty [(''error'', Num 0)] ''error'') = Inr Undefined
   \<and> \<not> truthy Undefined
   \<and> \<not> truthy (getProperty [(''error'', Num 0)] ''error'')
   \<and> constructBackendLogEvent plainEnv silentProps Info ''m'' (Some [(''error'', Num 0)])
       = (Inr \<lparr>jsonLog = JSON_stringify (backendPayload Info ''m'' [] (Some [(''error'', Num 0)])),
               timestamp = now plainEnv\<rparr>, Some [(''error'', Num 0)])
   \<and> map_of (backendPayload Info ''m'' [] (Some [(''error'', Num 0)])) ''error'' = Some (Num 0)
   \<and> hasProperty ''error'' [(''error'', Obj [(''message'', Str ''bad'')])]
   \<and> silentParser (getProperty [(''error'', Obj [(''message'', Str ''bad'')])] ''error'')
       = Inr Undefined
   \<and> truthy (getProperty [(''error'', Obj [(''message'', Str ''bad'')])] ''error'')
   \<and> snd (constructBackendLogEvent plainEnv silentProps Info ''m''
            (Some [(''error'', Obj [(''message'', Str ''bad'')])]))
       = Some (deleteProperty ''error'' [(''error'', Obj [(''message'', Str ''bad'')])])"
proof -
  have h1: "parseError silentProps = Some silentParser"
    by (simp add: silentProps_def)
  have h5: "resolveDefaultParams silentProps = Inr []"
    by (simp add: resolveDefaultParams_def silentProps_def plainProps_def)
  have h4: "\<not> truthy Undefined" by simp
  have a2: "hasProperty ''error'' [(''error'', Num 0)]"
    by (simp add: hasProperty_def keysOf_def)
  have a3: "silentParser (getProperty [(''error'', Num 0)] ''error'') = Inr Undefined"
    by (simp add: silentParser_def)
  have ag: "getProperty [(''error'', Num 0)] ''error'' = Num 0"
    by (simp add: getProperty_def)
  have b2: "hasProperty ''error'' [(''error'', Obj [(''message'', Str ''bad'')])]"
    by (simp add: hasProperty_def keysOf_def)
  have b3: "silentParser (getProperty [(''error'', Obj [(''message'', Str ''bad'')])] ''error'')
              = Inr Undefined"
    by (simp add: silentParser_def)
  have bg: "getProperty [(''error'', Obj [(''message'', Str ''bad'')])] ''error''
              = Obj [(''message'', Str ''bad'')]"
    by (simp add: getProperty_def)
  show ?thesis
    using h1 h5 h4 a2 a3 ag b2 b3 bg
      falsy_parseError_falls_back_to_raw [OF h1 a2 a3 h4 h5, of plainEnv Info "''m''"]
      falsy_parseError_falls_back_to_raw [OF h1 b2 b3 h4 h5, of plainEnv Info "''m''"]
    by (simp add: Let_def)
qed

text \<open>
  Claim C4 as stated fails: \<open>parseError\<close> returns \<open>undefined\<close> for the non-null value
  \<open>{message: "bad"}\<close> under the \<open>error\<close> key, and the payload has no \<open>error\<close> field but the
  merged \<open>message\<close>.
\<close>

theorem raw_error_field_replaced:
  "fst (constructBackendLogEvent plainEnv silentProps Info ''m''
          (Some [(''error'', Obj [(''message'', Str ''bad'')])]))
     = Inr \<lparr>jsonLog = ''{'' @ quoteJSON ''level'' @ '':'' @ quoteJSON ''INFO''
               @ '','' @ quoteJSON ''msg'' @ '':'' @ quoteJSON ''m''
               @ '','' @ quoteJSON ''message'' @ '':'' @ quoteJSON ''bad'' @ ''}'',
            timestamp = 0\<rparr>"
  by code_simp

section \<open>The caller's parameter object\<close>

text \<open>
  Claim C10. A call to \<open>info\<close>, \<open>warn\<close>, \<open>error\<close> or \<open>fatal\<close> whose parameters hold an
  \<open>error\<close> key and whose resolved error value (the output of \<open>parseError\<close>, or the raw
  value as fallback) is truthy deletes the \<open>error\<close> key from the caller's own parameter
  object: after the call has returned, the object is the one passed in without that
  key, and so differs from it.
\<close>

theorem error_key_deleted_from_caller_params:
  assumes "f \<in> {info, warn, error, fatal}"
    and "hasProperty ''error'' kvs"
    and "formatError p (Some kvs) = Inr fe" and "truthy fe"
    and "result (f e p message (Some kvs)) = Inr ()"
  shows "paramsAfter (f e p message (Some kvs)) = Some (deleteProperty ''error'' kvs)
       \<and> \<not> hasProperty ''error'' (deleteProperty ''error'' kvs)
       \<and> deleteProperty ''error'' kvs \<noteq> kvs"
proof -
  obtain type where f: "f = logAt type"
    using assms(1) by (auto simp: info_def warn_def error_def fatal_def)
  have "paramsAfter (logAt type e p message (Some kvs)) = Some (deleteProperty ''error'' kvs)"
    using assms(2-5) unfolding f
    by (auto simp: logAt_def constructBackendLogEvent_def mergeError_def Let_def
             split: sum.splits prod.splits if_splits)
  then show ?thesis
    using assms(2) by (simp add: f hasProperty_delete delete_changes)
qed

theorem error_key_deleted_from_caller_params_witness:
  "info \<in> {info, warn, error, fatal}
   \<and> hasProperty ''error'' [(''error'', Num 1), (''a'', Str ''b'')]
   \<and> formatError httpProps (Some [(''error'', Num 1), (''a'', Str ''b'')])
       = Inr (Obj [(''code'', Num 500), (''detail'', Str ''x'')])
   \<and> truthy (Obj [(''code'', Num 500), (''detail'', Str ''x'')])
   \<and> result (info plainEnv httpProps ''m'' (Some [(''error'', Num 1), (''a'', Str ''b'')])) = Inr ()
   \<and> paramsAfter (info plainEnv httpProps ''m'' (Some [(''error'', Num 1), (''a'', Str ''b'')]))
       = Some (deleteProperty ''error'' [(''error'', Num 1), (''a'', Str ''b'')])
   \<and> deleteProperty ''error'' [(''error'', Num 1), (''a'', Str ''b'')] = [(''a'', Str ''b'')]"
proof -
  have h1: "info \<in> {info, warn, error, fatal}" by simp
  have h2: "hasProperty ''error'' [(''error'', Num 1), (''a'', Str ''b'')]"
    by (simp add: hasProperty_def keysOf_def)
  have h3: "formatError httpProps (Some [(''error'', Num 1), (''a'', Str ''b'')])
              = Inr (Obj [(''code'', Num 500), (''detail'', Str ''x'')])"
    by code_simp
  have h4: "truthy (Obj [(''code'', Num 500), (''detail'', Str ''x'')])" by simp
  have h5: "result (info plainEnv httpProps ''m'' (Some [(''error'', Num 1), (''a'', Str ''b'')]))
              = Inr ()"
    by code_simp
  have d: "deleteProperty ''error'' [(''error'', Num 1), (''a'', Str ''b'')] = [(''a'', Str ''b'')]"
    by (simp add: deleteProperty_def)
  show ?thesis
    using h1 h2 h3 h4 h5 d error_key_deleted_from_caller_params [OF h1 h2 h3 h4 h5] by simp
qed

section \<open>The console rendering\<close>

lemma trim_snoc_space:
  assumes c: "isWhiteSpace c"
  shows "trim (s @ [c]) = trim s"
proof (cases "\<exists>x \<in> set s. \<not> isWhiteSpace x")
  case True
  then have "dropWhile isWhiteSpace (s @ [c]) = dropWhile isWhiteSpace s @ [c]"
    by (auto simp: dropWhile_append1)
  then show ?thesis
    using c by (simp add: trim_def)
next
  case False
  have "dropWhile isWhiteSpace (s @ [c]) = []" "dropWhile isWhiteSpace s = []"
    unfolding dropWhile_eq_Nil_conv using False c by auto
  then show ?thesis
    by (simp only: trim_def)
qed

lemma concat_spaced:
  "concat (map (\<lambda>t. t @ '' '') ts) = (if ts = [] then [] else joinWith '' '' ts @ '' '')"
  by (induction ts rule: joinWith.induct[of _ "'' ''"]) simp_all

lemma trim_concat_spaced: "trim (concat (map (\<lambda>t. t @ '' '') ts)) = trim (joinWith '' '' ts)"
proof (cases "ts = []")
  case True
  then show ?thesis by simp
next
  case False
  have w: "isWhiteSpace CHR '' ''" by (simp add: isWhiteSpace_def)
  have "trim (joinWith '' '' ts @ [CHR '' '']) = trim (joinWith '' '' ts)"
    by (rule trim_snoc_space [OF w])
  then show ?thesis
    using False by (simp add: concat_spaced)
qed

lemma entry_value:
  "distinct (map fst kvs) \<Longrightarrow> (k, v) \<in> set kvs \<Longrightarrow> getProperty kvs k = v"
  by (simp add: getProperty_def)

lemma resolveValue_spec: "resolveValue p kvs k = specResolved p k (getProperty kvs k)"
  by (simp add: resolveValue_def specResolved_def split: option.splits)

lemma forEachKey_spec:
  "\<forall>entry \<in> set es. getProperty kvs (fst entry) = snd entry \<Longrightarrow>
   \<forall>entry \<in> set es. \<not> isl (specResolved p (fst entry) (snd entry)) \<Longrightarrow>
     forEachKey p kvs (map fst es) acc
       = Inr (acc @ concat (map (\<lambda>t. t @ '' '') (concat (map (specToken p) es))))"
proof (induction es arbitrary: acc)
  case Nil
  then show ?case by simp
next
  case (Cons entry es)
  obtain r where r: "specResolved p (fst entry) (snd entry) = Inr r"
    using Cons.prems(2) by (cases "specResolved p (fst entry) (snd entry)") auto
  have rv: "resolveValue p kvs (fst entry) = Inr r"
    using Cons.prems(1) r by (simp add: resolveValue_spec)
  have ih: "forEachKey p kvs (map fst es) acc'
              = Inr (acc' @ concat (map (\<lambda>t. t @ '' '') (concat (map (specToken p) es))))"
    for acc'
    using Cons.IH Cons.prems by simp
  have tok: "specToken p entry
               = (if isString r \<or> isNumber r then [fst entry @ ''='' @ templateString r] else [])"
    using r by (cases r) (simp_all add: specToken_def)
  show ?case
    by (simp add: rv ih tok)
qed

lemma forEachKey_spec_throws:
  "(''error'', v) \<in> set es \<Longrightarrow> getProperty kvs ''error'' = v \<Longrightarrow> parseError p = Some f
     \<Longrightarrow> f v = Inl x \<Longrightarrow> forEachKey p kvs (map fst es) acc = Inl x"
proof (induction es arbitrary: acc)
  case Nil
  then show ?case by simp
next
  case (Cons entry es)
  show ?case
  proof (cases "fst entry = ''error''")
    case True
    then show ?thesis
      using Cons.prems by (simp add: resolveValue_def)
  next
    case False
    then have "(''error'', v) \<in> set es" using Cons.prems(1) by auto
    then show ?thesis
      using False Cons.IH Cons.prems by (simp add: resolveValue_def split: option.splits)
  qed
qed

text \<open>
  Claim C9, as the code has it. For every parameter map in which every entry has a
  resolved value (the normaliser does not throw on the \<open>error\<close> entry), the console log
  string is the one the specification describes: the trimmed, space-joined list of
  exactly one \<open>key=value\<close> token for each entry whose resolved value is a string or a
  number, in the order of the keys, and no token for any other entry. When the
  normaliser throws on the \<open>error\<close> entry there is no console string: the exception
  leaves the function.
\<close>

theorem console_rendering_tokens:
  assumes "distinct (map fst kvs)"
  shows "((\<forall>entry \<in> set kvs. \<not> isl (specResolved p (fst entry) (snd entry))) \<longrightarrow>
            transformObjectToLogString p (Some kvs) = Inr (specRendering p kvs))
       \<and> ((''error'', v) \<in> set kvs \<and> parseError p = Some f \<and> f v = Inl x \<longrightarrow>
            transformObjectToLogString p (Some kvs) = Inl x)"
proof (intro conjI impI)
  assume ok: "\<forall>entry \<in> set kvs. \<not> isl (specResolved p (fst entry) (snd entry))"
  have "\<forall>entry \<in> set kvs. getProperty kvs (fst entry) = snd entry"
    using entry_value [OF assms] by auto
  then have "forEachKey p kvs (map fst kvs) []
               = Inr (concat (map (\<lambda>t. t @ '' '') (concat (map (specToken p) kvs))))"
    using forEachKey_spec [of kvs kvs p "[]"] ok by simp
  then show "transformObjectToLogString p (Some kvs) = Inr (specRendering p kvs)"
    by (simp add: transformObjectToLogString_def keysOf_def specRendering_def trim_concat_spaced)
next
  assume a: "(''error'', v) \<in> set kvs \<and> parseError p = Some f \<and> f v = Inl x"
  then have "getProperty kvs ''error'' = v"
    using entry_value [OF assms] by blast
  then have "forEachKey p kvs (map fst kvs) [] = Inl x"
    using a forEachKey_spec_throws [of v kvs kvs p f x "[]"] by simp
  then show "transformObjectToLogString p (Some kvs) = Inl x"
    by (simp add: transformObjectToLogString_def keysOf_def)
qed

theorem console_rendering_tokens_witness:
  "distinct (map fst [(''user'', Str ''ann''), (''tags'', Arr [Str ''a'']), (''n'', Num 3),
                      (''error'', Num 1), (''ctx'', Obj [(''k'', Num 1)])])
   \<and> specRendering httpProps
        [(''user'', Str ''ann''), (''tags'', Arr [Str ''a'']), (''n'', Num 3),
         (''error'', Num 1), (''ctx'', Obj [(''k'', Num 1)])] = ''user=ann n=3''
   \<and> transformObjectToLogString httpProps
        (Some [(''user'', Str ''ann''), (''tags'', Arr [Str ''a'']), (''n'', Num 3),
               (''error'', Num 1), (''ctx'', Obj [(''k'', Num 1)])]) = Inr ''user=ann n=3''
   \<and> specRendering plainProps
        [(''user'', Str ''ann''), (''tags'', Arr [Str ''a'']), (''n'', Num 3),
         (''error'', Num 1), (''ctx'', Obj [(''k'', Num 1)])] = ''user=ann n=3 error=1''
   \<and> transformObjectToLogString plainProps
        (Some [(''user'', Str ''ann''), (''tags'', Arr [Str ''a'']), (''n'', Num 3),
               (''error'', Num 1), (''ctx'', Obj [(''k'', Num 1)])]) = Inr ''user=ann n=3 error=1''
   \<and> transformObjectToLogString throwingProps
        (Some [(''user'', Str ''ann''), (''tags'', Arr [Str ''a'']), (''n'', Num 3),
               (''error'', Num 1), (''ctx'', Obj [(''k'', Num 1)])]) = Inl (Str ''boom'')"
proof -
  let ?kvs = "[(''user'', Str ''ann''), (''tags'', Arr [Str ''a'']), (''n'', Num 3),
               (''error'', Num 1), (''ctx'', Obj [(''k'', Num 1)])]"
  have d: "distinct (map fst ?kvs)" by simp
  have h1: "\<forall>entry \<in> set ?kvs. \<not> isl (specResolved httpProps (fst entry) (snd entry))"
    by (simp add: specResolved_def httpProps_def httpParser_def)
  have h2: "\<forall>entry \<in> set ?kvs. \<not> isl (specResolved plainProps (fst entry) (snd entry))"
    by (simp add: specResolved_def plainProps_def)
  have r1: "specRendering httpProps ?kvs = ''user=ann n=3''" by code_simp
  have r2: "specRendering plainProps ?kvs = ''user=ann n=3 error=1''" by code_simp
  have t1: "(''error'', Num 1) \<in> set ?kvs" by simp
  have t2: "parseError throwingProps = Some throwingParser"
    by (simp add: throwingProps_def)
  have t3: "throwingParser (Num 1) = Inl (Str ''boom'')"
    by (simp add: throwingParser_def)
  show ?thesis
    using d h1 h2 r1 r2 t1 t2 t3
      console_rendering_tokens [OF d, of httpProps]
      console_rendering_tokens [OF d, of plainProps]
      console_rendering_tokens [OF d, of throwingProps "Num 1" throwingParser "Str ''boom''"]
    by simp
qed

text \<open>
  Claim C9 as stated fails: with a normaliser that throws, the parameter map
  \<open>{error: 1, a: "b"}\<close> has no console string at all, so no token \<open>a=b\<close> for its string
  entry.
\<close>

theorem no_rendering_when_parseError_throws:
  "transformObjectToLogString throwingProps (Some [(''error'', Num 1), (''a'', Str ''b'')])
     = Inl (Str ''boom'')"
  by code_simp

section \<open>Message sanitisation\<close>

text \<open>
  Claim C5, as the code has it. The expression replaces a run of punctuation only where
  the run touches white space or an end of the message; \<open>=\<close> is not in the class, and the
  \<open>-\<close> of \<open>logged-in\<close> stands between two letters. The sanitised form of
  \<open>User (id=5) logged-in!\<close> is \<open>user id=5 logged-in\<close>.
\<close>

theorem sanitize_example:
  "sanitizeMessage ''User (id=5) logged-in!'' = ''user id=5 logged-in''"
  by code_simp

text \<open>Claim C5 as stated fails: the output is not \<open>user id5 loggedin\<close>.\<close>

theorem sanitize_example_keeps_inner_punctuation:
  "sanitizeMessage ''User (id=5) logged-in!'' \<noteq> ''user id5 loggedin''"
  by code_simp

text \<open>
  Claim C6 says that sanitising an already sanitised message changes nothing. The code
  breaks it at \<open>hello, (world)\<close>. The second alternative of the expression strips a
  punctuation run that follows white space, as it does for the bracket of
  \<open>hello (world)\<close>; but here the first alternative has taken the comma together with
  the space behind it, so the scan reaches the bracket with no white space left in front
  of it and keeps it. The first pass gives \<open>hello (world\<close>, and only a second pass,
  which finds the bracket behind the replacement space, gives \<open>hello world\<close>.
\<close>

theorem sanitize_not_idempotent:
  "sanitizeMessage ''hello (world)'' = ''hello world''
   \<and> sanitizeMessage ''hello, (world)'' = ''hello (world''
   \<and> sanitizeMessage (sanitizeMessage ''hello, (world)'') = ''hello world''
   \<and> sanitizeMessage (sanitizeMessage ''hello, (world)'') \<noteq> sanitizeMessage ''hello, (world)''"
  by code_simp

end
